theory Spec2Isabelle
  imports
    Main
    "HOL-Library.Char_ord"
    "HOL-Library.List_Lexorder"
    "HOL-Library.Product_Lexorder"
    "HOL-Library.Multiset"
begin

section \<open>The systemd service check (check\_systemd\_services.py)\<close>

text \<open>
  The script is Python 2: \<open>subprocess.check_output\<close> returns a byte string (\<open>str\<close>),
  which is what \<open>string\<close> (a list of 8-bit characters) models. Comparison of two
  \<open>str\<close> values is byte-wise lexicographic, a proper prefix being smaller, which is the
  order of \<open>HOL-Library.List_Lexorder\<close> over \<open>HOL-Library.Char_ord\<close>.
\<close>

subsection \<open>Data\<close>

text \<open>
  \<open>class Problem\<close>: an enumeration whose members are the integers 0 to 3,
  "from more important to less". \<open>Problem_value\<close> is the integer of a member and
  \<open>Problem_name\<close> the attribute name that \<open>vars(Problem)\<close> lists it under.
\<close>

datatype Problem = failed | dead | not_loaded_but_not_inactive | not_loaded_but_not_dead

fun Problem_value :: "Problem \<Rightarrow> nat" where
  "Problem_value failed = 0"
| "Problem_value dead = 1"
| "Problem_value not_loaded_but_not_inactive = 2"
| "Problem_value not_loaded_but_not_dead = 3"

fun Problem_name :: "Problem \<Rightarrow> string" where
  "Problem_name failed = ''failed''"
| "Problem_name dead = ''dead''"
| "Problem_name not_loaded_but_not_inactive = ''not_loaded_but_not_inactive''"
| "Problem_name not_loaded_but_not_dead = ''not_loaded_but_not_dead''"

text \<open>
  What \<open>subprocess.check_output(command.split())\<close> can do: return the output of the
  command, raise \<open>CalledProcessError\<close> (the command ran and exited non-zero; the string
  is \<open>str(error)\<close>), or raise \<open>OSError\<close> (the command could not be started).
\<close>

datatype check_output_result =
    Returns string
  | Raises_CalledProcessError string
  | Raises_OSError string

datatype exn = IndexError | TypeError | OSError string

text \<open>
  How a run ends: \<open>Exit text code\<close> is \<open>print(text)\<close> followed by \<open>sys.exit(code)\<close>;
  \<open>Uncaught e\<close> is an exception that leaves \<open>main\<close>, with nothing printed on the
  standard output.
\<close>

datatype outcome = Exit string nat | Uncaught exn

subsection \<open>String methods of Python 2\<close>

definition isspace :: "char \<Rightarrow> bool" where
  "isspace c \<longleftrightarrow>
     c = CHR '' '' \<or> c = CHR 0x09 \<or> c = CHR 0x0A \<or> c = CHR 0x0B \<or> c = CHR 0x0C \<or> c = CHR 0x0D"

text \<open>
  \<open>str.splitlines()\<close>: a line ends at \<open>\n\<close>, \<open>\r\<close> or \<open>\r\n\<close>; the line ends are not
  kept and a final line end opens no further line. The first argument holds the
  characters of the current line, last one first.
\<close>

fun splitlines_from :: "string \<Rightarrow> string \<Rightarrow> string list" where
  "splitlines_from cur [] = (if cur = [] then [] else [rev cur])"
| "splitlines_from cur (c # d # rest) =
     (if c = CHR 0x0D \<and> d = CHR 0x0A then rev cur # splitlines_from [] rest
      else if c = CHR 0x0D \<or> c = CHR 0x0A then rev cur # splitlines_from [] (d # rest)
      else splitlines_from (c # cur) (d # rest))"
| "splitlines_from cur [c] =
     (if c = CHR 0x0D \<or> c = CHR 0x0A then [rev cur] else [rev (c # cur)])"

definition splitlines :: "string \<Rightarrow> string list" where
  "splitlines s = splitlines_from [] s"

text \<open>\<open>str.strip()\<close>: leading and trailing whitespace removed.\<close>

definition strip :: "string \<Rightarrow> string" where
  "strip s = rev (dropWhile isspace (rev (dropWhile isspace s)))"

text \<open>
  \<open>str.split(None, maxsplit)\<close>: at most \<open>maxsplit\<close> fields are cut at runs of
  whitespace; what is left after them, leading whitespace skipped, is one more field
  when it is not empty.
\<close>

fun split_whitespace :: "nat \<Rightarrow> string \<Rightarrow> string list" where
  "split_whitespace 0 s =
     (let r = dropWhile isspace s in if r = [] then [] else [r])"
| "split_whitespace (Suc maxsplit) s =
     (let r = dropWhile isspace s in
      if r = [] then []
      else takeWhile (\<lambda>c. \<not> isspace c) r
             # split_whitespace maxsplit (dropWhile (\<lambda>c. \<not> isspace c) r))"

text \<open>\<open>str.replace(old, new)\<close> for one-character arguments.\<close>

definition replace :: "char \<Rightarrow> char \<Rightarrow> string \<Rightarrow> string" where
  "replace old new s = map (\<lambda>c. if c = old then new else c) s"

subsection \<open>check\_service\<close>

text \<open>A function that reaches its end without \<open>return\<close> gives \<open>None\<close>.\<close>

definition check_service :: "string \<Rightarrow> string \<Rightarrow> string \<Rightarrow> Problem option" where
  "check_service serv_load serv_active serv_sub =
     (if serv_load = ''loaded'' then
        (if serv_active = ''failed'' \<or> serv_sub = ''failed'' then Some failed
         else if serv_sub = ''dead'' then Some dead
         else None)
      else
        (if serv_active \<noteq> ''inactive'' then Some not_loaded_but_not_inactive
         else if serv_sub \<noteq> ''dead'' then Some not_loaded_but_not_dead
         else None))"

subsection \<open>get\_message\<close>

definition problem_names :: "Problem \<Rightarrow> string" where
  "problem_names v = replace (CHR ''_'') (CHR '' '') (Problem_name v)"

fun get_message_loop ::
  "(Problem \<times> string) list \<Rightarrow> string \<Rightarrow> Problem option \<Rightarrow> string" where
  "get_message_loop [] message last_problem = message"
| "get_message_loop ((problem, service) # rest) message last_problem =
     (let (message1, last_problem1) =
            (if Some problem \<noteq> last_problem
             then (message @ problem_names problem @ '': '', Some problem)
             else (message, last_problem))
      in get_message_loop rest (message1 @ service @ '' '') last_problem1)"

definition get_message :: "(Problem \<times> string) list \<Rightarrow> string" where
  "get_message problems = get_message_loop problems '''' None"

subsection \<open>main\<close>

text \<open>
  The body of the loop over the lines. \<open>service_split[0]\<close> raises \<open>IndexError\<close> on an
  empty list; \<open>check_service(*service_split[1:4])\<close> raises \<open>TypeError\<close> unless the slice
  has exactly three elements (it never has more).
\<close>

definition add_problem ::
  "string list \<Rightarrow> (Problem \<times> string) list \<times> (Problem \<times> string) list \<Rightarrow> string
    \<Rightarrow> Problem option \<Rightarrow> (Problem \<times> string) list \<times> (Problem \<times> string) list" where
  "add_problem critical_services buckets service_name problem_opt =
     (case buckets of (criticals, warnings) \<Rightarrow>
      (case problem_opt of
         None \<Rightarrow> (criticals, warnings)
       | Some problem \<Rightarrow>
           (if service_name \<in> set critical_services then
              (if problem = failed then (criticals @ [(problem, service_name)], warnings)
               else (criticals, warnings @ [(problem, service_name)]))
            else if problem \<noteq> dead then (criticals, warnings @ [(problem, service_name)])
            else (criticals, warnings))))"

definition process_line ::
  "string list \<Rightarrow> (Problem \<times> string) list \<times> (Problem \<times> string) list \<Rightarrow> string
    \<Rightarrow> exn + (Problem \<times> string) list \<times> (Problem \<times> string) list" where
  "process_line critical_services buckets line =
     (let service_split = split_whitespace 4 (strip line) in
      case service_split of
        [] \<Rightarrow> Inl IndexError
      | service_name # _ \<Rightarrow>
          (case take 3 (drop 1 service_split) of
             [serv_load, serv_active, serv_sub] \<Rightarrow>
               Inr (add_problem critical_services buckets service_name
                      (check_service serv_load serv_active serv_sub))
           | _ \<Rightarrow> Inl TypeError))"

fun main_loop ::
  "string list \<Rightarrow> string list \<Rightarrow> (Problem \<times> string) list \<times> (Problem \<times> string) list
    \<Rightarrow> exn + (Problem \<times> string) list \<times> (Problem \<times> string) list" where
  "main_loop critical_services [] buckets = Inr buckets"
| "main_loop critical_services (line # rest) buckets =
     (case process_line critical_services buckets line of
        Inl e \<Rightarrow> Inl e
      | Inr buckets1 \<Rightarrow> main_loop critical_services rest buckets1)"

text \<open>
  \<open>list.sort()\<close> on a list of tuples \<open>(problem, service_name)\<close>: tuples compare by
  their first components and, those being equal, by their second.
\<close>

definition list_sort :: "(Problem \<times> string) list \<Rightarrow> (Problem \<times> string) list" where
  "list_sort xs = sort_key (\<lambda>(problem, service_name). (Problem_value problem, service_name)) xs"

definition report :: "(Problem \<times> string) list \<Rightarrow> (Problem \<times> string) list \<Rightarrow> outcome" where
  "report criticals warnings =
     (if criticals \<noteq> [] then Exit (''CRITICAL: '' @ get_message (criticals @ warnings)) 2
      else if warnings \<noteq> [] then Exit (''WARNING: '' @ get_message warnings) 1
      else Exit ''OK'' 0)"

text \<open>The part of \<open>main\<close> after the \<open>try\<close> statement, on \<open>output.splitlines()\<close>.\<close>

definition main_body :: "string list \<Rightarrow> string list \<Rightarrow> outcome" where
  "main_body critical_services lines =
     (case main_loop critical_services lines ([], []) of
        Inl e \<Rightarrow> Uncaught e
      | Inr (criticals, warnings) \<Rightarrow> report (list_sort criticals) (list_sort warnings))"

text \<open>Only \<open>CalledProcessError\<close> is caught around the call of \<open>check_output\<close>.\<close>

definition main :: "string list \<Rightarrow> check_output_result \<Rightarrow> outcome" where
  "main critical_services r =
     (case r of
        Raises_CalledProcessError error \<Rightarrow> Exit (''UNKNOWN: '' @ error) 3
      | Raises_OSError e \<Rightarrow> Uncaught (OSError e)
      | Returns output \<Rightarrow> main_body critical_services (splitlines output))"

subsection \<open>Notions of the specification\<close>

text \<open>
  The fields of one line of the listing, as \<open>main\<close> cuts them. A line is a unit
  record when it has the name and the three state strings.
\<close>

definition line_fields :: "string \<Rightarrow> string list" where
  "line_fields line = split_whitespace 4 (strip line)"

definition well_formed :: "string \<Rightarrow> bool" where
  "well_formed line \<longleftrightarrow> 4 \<le> length (line_fields line)"

definition line_name :: "string \<Rightarrow> string" where
  "line_name line = line_fields line ! 0"

definition line_problem :: "string \<Rightarrow> Problem option" where
  "line_problem line =
     check_service (line_fields line ! 1) (line_fields line ! 2) (line_fields line ! 3)"

text \<open>The classifications of a listing, healthy units left out, in listing order.\<close>

definition classified :: "string list \<Rightarrow> (Problem \<times> string) list" where
  "classified lines =
     List.map_filter (\<lambda>line. map_option (\<lambda>p. (p, line_name line)) (line_problem line)) lines"

text \<open>The bucket rule of the aggregator, in the words of the specification.\<close>

datatype bucket = CRITICALS | WARNINGS | DROPPED

definition bucket_of :: "string list \<Rightarrow> Problem \<times> string \<Rightarrow> bucket" where
  "bucket_of critical entry =
     (if snd entry \<in> set critical \<and> fst entry = failed then CRITICALS
      else if snd entry \<in> set critical then WARNINGS
      else if fst entry \<noteq> dead then WARNINGS
      else DROPPED)"

definition dropped_line :: "string list \<Rightarrow> string \<Rightarrow> bool" where
  "dropped_line critical line \<longleftrightarrow>
     well_formed line \<and>
     (case line_problem line of
        None \<Rightarrow> False
      | Some p \<Rightarrow> bucket_of critical (p, line_name line) = DROPPED)"

text \<open>
  The order of two entries of a sorted bucket: by category precedence, and by unit
  name within a category.
\<close>

definition entry_le :: "Problem \<times> string \<Rightarrow> Problem \<times> string \<Rightarrow> bool" where
  "entry_le a b \<longleftrightarrow>
     Problem_value (fst a) < Problem_value (fst b) \<or> (fst a = fst b \<and> snd a \<le> snd b)"

text \<open>
  The message body in the words of the specification: consecutive entries of one
  category form a group; a group is printed as its label, a colon and a space, and
  each unit name followed by a space.
\<close>

fun group_consecutive :: "(Problem \<times> string) list \<Rightarrow> (Problem \<times> string list) list" where
  "group_consecutive [] = []"
| "group_consecutive ((p, name) # rest) =
     (case group_consecutive rest of
        [] \<Rightarrow> [(p, [name])]
      | (q, names) # groups \<Rightarrow>
          (if p = q then (p, name # names) # groups
           else (p, [name]) # (q, names) # groups))"

definition category_label :: "Problem \<Rightarrow> string" where
  "category_label p = map (\<lambda>c. if c = CHR ''_'' then CHR '' '' else c) (Problem_name p)"

definition render_group :: "Problem \<times> string list \<Rightarrow> string" where
  "render_group g = category_label (fst g) @ '': '' @ concat (map (\<lambda>name. name @ '' '') (snd g))"

definition render_groups :: "(Problem \<times> string list) list \<Rightarrow> string" where
  "render_groups groups = concat (map render_group groups)"

text \<open>The status word of a printed line, and the exit code of a status word.\<close>

definition status_word :: "string \<Rightarrow> string" where
  "status_word text = takeWhile (\<lambda>c. c \<noteq> CHR '':'') text"

definition exit_code_of :: "string \<Rightarrow> nat option" where
  "exit_code_of word =
     (if word = ''OK'' then Some 0
      else if word = ''WARNING'' then Some 1
      else if word = ''CRITICAL'' then Some 2
      else if word = ''UNKNOWN'' then Some 3
      else None)"

text \<open>
  A run prints a status word that agrees with its exit code: it ends with a printed
  line and \<open>sys.exit\<close>, not with an uncaught exception, and the word and the code
  match.
\<close>

definition status_matches_exit_code :: "outcome \<Rightarrow> bool" where
  "status_matches_exit_code result =
     (case result of
        Exit text code \<Rightarrow> exit_code_of (status_word text) = Some code
      | Uncaught e \<Rightarrow> False)"

section \<open>Auxiliary facts\<close>

subsection \<open>The loop over the lines\<close>

lemma length_ge_4_fields:
  assumes "4 \<le> length xs"
  obtains a b c d rest where "xs = a # b # c # d # rest"
proof -
  from assms obtain a xs1 where 1: "xs = a # xs1" by (cases xs) auto
  with assms obtain b xs2 where 2: "xs1 = b # xs2" by (cases xs1) auto
  with 1 assms obtain c xs3 where 3: "xs2 = c # xs3" by (cases xs2) auto
  with 1 2 assms obtain d xs4 where 4: "xs3 = d # xs4" by (cases xs3) auto
  from 1 2 3 4 that show thesis by blast
qed

lemma process_line_well_formed:
  assumes "well_formed line"
  shows "process_line critical buckets line
           = Inr (add_problem critical buckets (line_name line) (line_problem line))"
proof -
  from assms have "4 \<le> length (line_fields line)" by (simp add: well_formed_def)
  then obtain a b c d rest where fs: "line_fields line = a # b # c # d # rest"
    by (rule length_ge_4_fields)
  then have fs': "split_whitespace 4 (strip line) = a # b # c # d # rest"
    by (simp add: line_fields_def)
  show ?thesis
    by (simp add: process_line_def fs' line_name_def line_problem_def fs)
qed


lemma process_line_malformed:
  assumes "\<not> well_formed line"
  shows "process_line critical buckets line
           = Inl (if line_fields line = [] then IndexError else TypeError)"
proof (cases "line_fields line")
  case Nil
  then have "split_whitespace 4 (strip line) = []" by (simp add: line_fields_def)
  then show ?thesis using Nil by (simp add: process_line_def)
next
  case (Cons a rest)
  then have fs: "split_whitespace 4 (strip line) = a # rest" by (simp add: line_fields_def)
  from assms Cons have "length rest < 3" by (simp add: well_formed_def)
  then have "length (take 3 rest) < 3" by simp
  then have "case_list (Inl TypeError)
               (\<lambda>x xs. case xs of [] \<Rightarrow> Inl TypeError
                  | y # ys \<Rightarrow> (case ys of [] \<Rightarrow> Inl TypeError
                      | z # zs \<Rightarrow> (case zs of [] \<Rightarrow> Inr (f x y z) | _ \<Rightarrow> Inl TypeError)))
               (take 3 rest) = Inl TypeError" for f :: "string \<Rightarrow> string \<Rightarrow> string \<Rightarrow> 'b"
    by (auto split: list.splits)
  then show ?thesis using Cons by (simp add: process_line_def fs)
qed

lemma main_loop_well_formed:
  assumes "\<forall>line \<in> set lines. well_formed line"
  shows "main_loop critical lines (criticals, warnings)
           = Inr (criticals @ filter (\<lambda>e. bucket_of critical e = CRITICALS) (classified lines),
                  warnings @ filter (\<lambda>e. bucket_of critical e = WARNINGS) (classified lines))"
  using assms
proof (induction lines arbitrary: criticals warnings)
  case Nil
  show ?case by (simp add: classified_def)
next
  case (Cons line rest)
  then have wf: "well_formed line" and rest: "\<forall>l \<in> set rest. well_formed l" by simp_all
  show ?case
  proof (cases "line_problem line")
    case None
    then show ?thesis
      using Cons.IH [OF rest]
      by (simp add: process_line_well_formed [OF wf] add_problem_def classified_def)
  next
    case (Some p)
    then show ?thesis
      using Cons.IH [OF rest]
      by (simp add: process_line_well_formed [OF wf] add_problem_def classified_def
                    bucket_of_def)
  qed
qed

lemma main_loop_malformed:
  assumes "\<exists>line \<in> set lines. \<not> well_formed line"
  shows "main_loop critical lines buckets = Inl IndexError
       \<or> main_loop critical lines buckets = Inl TypeError"
  using assms
proof (induction lines arbitrary: buckets)
  case Nil
  then show ?case by simp
next
  case (Cons line rest)
  show ?case
  proof (cases "well_formed line")
    case True
    with Cons.prems have "\<exists>l \<in> set rest. \<not> well_formed l" by simp
    from Cons.IH [OF this] show ?thesis
      by (simp add: process_line_well_formed [OF True])
  next
    case False
    then show ?thesis by (simp add: process_line_malformed)
  qed
qed

lemma main_loop_dropped:
  "main_loop critical (filter (\<lambda>line. \<not> dropped_line critical line) lines) buckets
     = main_loop critical lines buckets"
proof (induction lines arbitrary: buckets)
  case Nil
  show ?case by simp
next
  case (Cons line rest)
  show ?case
  proof (cases "dropped_line critical line")
    case True
    then have wf: "well_formed line" by (simp add: dropped_line_def)
    from True have "add_problem critical buckets (line_name line) (line_problem line) = buckets"
      by (cases buckets)
         (auto simp: dropped_line_def add_problem_def bucket_of_def
               split: option.splits if_splits)
    then show ?thesis using True Cons.IH
      by (simp add: process_line_well_formed [OF wf])
  next
    case False
    then show ?thesis using Cons.IH by (simp split: sum.splits)
  qed
qed


lemma problem_names_label: "problem_names p = category_label p"
  by (simp add: problem_names_def category_label_def replace_def)

lemma get_message_loop_groups:
  "get_message_loop problems message last_problem =
     message @
     (case group_consecutive problems of
        [] \<Rightarrow> []
      | g # groups \<Rightarrow>
          (if Some (fst g) = last_problem
           then concat (map (\<lambda>name. name @ '' '') (snd g))
           else render_group g) @ render_groups groups)"
proof (induction problems arbitrary: message last_problem)
  case Nil
  show ?case by simp
next
  case (Cons e rest)
  obtain p name where e: "e = (p, name)" by (cases e)
  show ?case
  proof (cases "group_consecutive rest")
    case Nil
    then show ?thesis
      by (simp add: e Cons.IH render_group_def render_groups_def problem_names_label)
  next
    case (Cons g groups)
    obtain q names where g: "g = (q, names)" by (cases g)
    show ?thesis
      by (auto simp: e Cons.IH Cons g render_group_def render_groups_def problem_names_label)
  qed
qed

lemma get_message_groups:
  "get_message problems = render_groups (group_consecutive problems)"
  by (simp add: get_message_def get_message_loop_groups render_groups_def split: list.splits)

lemma group_consecutive_Nil: "group_consecutive problems = [] \<longleftrightarrow> problems = []"
  by (cases problems rule: group_consecutive.cases) (simp_all split: list.splits)

lemma group_consecutive_hd:
  "group_consecutive ((p, name) # rest) = g # groups \<Longrightarrow> fst g = p"
  by (auto split: list.splits if_splits)

lemma group_consecutive_keys:
  "map fst (group_consecutive problems) = remdups_adj (map fst problems)"
proof (induction problems)
  case Nil
  show ?case by simp
next
  case (Cons e rest)
  obtain p name where e: "e = (p, name)" by (cases e)
  show ?case
  proof (cases rest)
    case Nil
    then show ?thesis by (simp add: e)
  next
    case rest: (Cons r rest')
    obtain q name' where r: "r = (q, name')" by (cases r)
    from rest have "group_consecutive rest \<noteq> []" by (simp add: group_consecutive_Nil)
    then obtain g groups where gs: "group_consecutive rest = g # groups"
      by (cases "group_consecutive rest") auto
    have fg: "fst g = q" by (rule group_consecutive_hd [OF gs [unfolded rest r]])
    obtain names where g: "g = (q, names)" using fg by (cases g) auto
    have mr: "map fst rest = q # map fst rest'" by (simp add: rest r)
    have IH: "q # map fst groups = remdups_adj (q # map fst rest')"
      using Cons.IH unfolding gs mr g by simp
    have "map fst (group_consecutive ((p, name) # rest))
            = (if p = q then q # map fst groups else p # q # map fst groups)"
      by (simp add: gs g)
    also have "\<dots> = remdups_adj (p # q # map fst rest')"
      using IH by simp
    also have "\<dots> = remdups_adj (map fst ((p, name) # rest))"
      by (simp only: mr list.map fst_conv)
    finally show ?thesis by (simp only: e)
  qed
qed

lemma Problem_value_inj: "Problem_value p = Problem_value q \<longleftrightarrow> p = q"
  by (cases p; cases q) simp_all

lemma sorted_distinct_remdups_adj:
  "sorted (xs :: nat list) \<Longrightarrow> distinct (remdups_adj xs)"
  by (induction xs rule: remdups_adj.induct) auto

lemma distinct_group_keys:
  assumes "sorted (map (Problem_value \<circ> fst) problems)"
  shows "distinct (map fst (group_consecutive problems))"
proof -
  have inj: "inj Problem_value" by (rule injI) (simp add: Problem_value_inj)
  have "distinct (remdups_adj (map (Problem_value \<circ> fst) problems))"
    using assms by (rule sorted_distinct_remdups_adj)
  then have "distinct (remdups_adj (map Problem_value (map fst problems)))"
    by (simp only: map_map)
  then have "distinct (map Problem_value (remdups_adj (map fst problems)))"
    by (simp only: remdups_adj_map_injective [OF inj])
  then have "distinct (remdups_adj (map fst problems))"
    by (simp add: distinct_map)
  then show ?thesis by (simp only: group_consecutive_keys)
qed

lemma key_le_entry_le:
  assumes "(Problem_value (fst a), snd a) \<le> (Problem_value (fst b), snd b)"
  shows "entry_le a b"
proof (cases "Problem_value (fst a) < Problem_value (fst b)")
  case True
  then show ?thesis by (simp add: entry_le_def)
next
  case False
  with assms have "Problem_value (fst a) = Problem_value (fst b)" and "snd a \<le> snd b"
    by simp_all
  then show ?thesis by (simp add: entry_le_def Problem_value_inj)
qed

lemma list_sort_sorted: "sorted_wrt entry_le (list_sort xs)"
proof -
  have "sorted (map (\<lambda>(problem, service_name). (Problem_value problem, service_name))
                  (list_sort xs))"
    unfolding list_sort_def by (rule sorted_sort_key)
  then have "sorted_wrt (\<lambda>a b. (Problem_value (fst a), snd a) \<le> (Problem_value (fst b), snd b))
               (list_sort xs)"
    by (simp only: sorted_map case_prod_beta)
  then show ?thesis
    by (rule sorted_wrt_mono_rel [rotated]) (rule key_le_entry_le)
qed

lemma list_sort_mset: "mset (list_sort xs) = mset xs"
  by (simp add: list_sort_def)

lemma list_sort_set: "set (list_sort xs) = set xs"
  by (simp add: list_sort_def)

lemma list_sort_Nil: "list_sort xs = [] \<longleftrightarrow> xs = []"
  by (metis list_sort_mset mset_zero_iff)

lemma list_sort_categories: "sorted (map (Problem_value \<circ> fst) (list_sort xs))"
proof -
  have "sorted_wrt (\<lambda>a b. Problem_value (fst a) \<le> Problem_value (fst b)) (list_sort xs)"
    by (rule sorted_wrt_mono_rel [OF _ list_sort_sorted]) (auto simp: entry_le_def)
  then show ?thesis by (simp add: sorted_map)
qed

lemma main_loop_Inr_well_formed:
  assumes "main_loop critical lines buckets = Inr result"
  shows "\<forall>line \<in> set lines. well_formed line"
proof (rule ccontr)
  assume "\<not> (\<forall>line \<in> set lines. well_formed line)"
  then have "\<exists>line \<in> set lines. \<not> well_formed line" by simp
  from main_loop_malformed [OF this, of critical buckets] assms show False by simp
qed

lemma classified_member:
  "line \<in> set lines \<Longrightarrow> line_problem line = Some p
     \<Longrightarrow> (p, line_name line) \<in> set (classified lines)"
  by (induction lines) (auto simp: classified_def split: option.splits)

subsection \<open>The first malformed line\<close>

lemma main_loop_first_malformed:
  assumes "\<forall>l \<in> set before. well_formed l" and "\<not> well_formed line"
  shows "main_loop critical (before @ line # rest) buckets
           = Inl (if line_fields line = [] then IndexError else TypeError)"
  using assms
proof (induction before arbitrary: buckets)
  case Nil
  then show ?case by (simp add: process_line_malformed)
next
  case (Cons l before)
  then have wf: "well_formed l" by simp
  from Cons show ?case by (simp add: process_line_well_formed [OF wf])
qed

lemma dropWhile_snoc_keeps_last:
  assumes "\<not> P x"
  shows "\<exists>zs. dropWhile P (ys @ [x]) = zs @ [x]"
  using assms by (induction ys) auto

lemma strip_all_space_iff:
  "(\<forall>c \<in> set (strip line). isspace c) \<longleftrightarrow> (\<forall>c \<in> set line. isspace c)"
proof (cases "dropWhile isspace line")
  case Nil
  have s: "strip line = []" unfolding strip_def Nil by simp
  from Nil have "\<forall>c \<in> set line. isspace c" by (simp add: dropWhile_eq_Nil_conv)
  with s show ?thesis by simp
next
  case (Cons x t)
  then have nx: "\<not> isspace x" by (metis hd_dropWhile list.distinct(1) list.sel(1))
  from Cons have nall: "\<not> (\<forall>c \<in> set line. isspace c)"
    by (metis dropWhile_eq_Nil_conv list.distinct(1))
  from dropWhile_snoc_keeps_last [of isspace x "rev t", OF nx]
  obtain zs where "dropWhile isspace (rev t @ [x]) = zs @ [x]" by blast
  then have "strip line = x # rev zs" unfolding strip_def Cons by simp
  with nx nall show ?thesis by simp
qed

lemma line_fields_Nil_iff: "line_fields line = [] \<longleftrightarrow> list_all isspace line"
proof -
  have "split_whitespace 4 s = [] \<longleftrightarrow> (\<forall>c \<in> set s. isspace c)" for s
    by (simp add: numeral_eq_Suc Let_def)
  then show ?thesis by (simp add: line_fields_def strip_all_space_iff list_all_iff)
qed

section \<open>The classifier\<close>

text \<open>
  C1. \<open>check_service\<close> follows the decision table, first matching row first: a loaded
  unit is \<open>failed\<close> when its active state or its sub-state is "failed", else \<open>dead\<close>
  when its sub-state is "dead", else healthy; a unit that is not loaded is
  \<open>not_loaded_but_not_inactive\<close> when its active state is not "inactive", else
  \<open>not_loaded_but_not_dead\<close> when its sub-state is not "dead", else healthy. A loaded
  unit whose active state is "failed" is \<open>failed\<close> whatever its sub-state. The function
  is total: every triple of strings gives a category or \<open>None\<close>.
\<close>

theorem check_service_decision_table:
  "(serv_load = ''loaded'' \<and> (serv_active = ''failed'' \<or> serv_sub = ''failed'')
      \<longrightarrow> check_service serv_load serv_active serv_sub = Some failed)
 \<and> (serv_load = ''loaded'' \<and> serv_active \<noteq> ''failed'' \<and> serv_sub = ''dead''
      \<longrightarrow> check_service serv_load serv_active serv_sub = Some dead)
 \<and> (serv_load = ''loaded'' \<and> serv_active \<noteq> ''failed'' \<and> serv_sub \<noteq> ''failed''
        \<and> serv_sub \<noteq> ''dead''
      \<longrightarrow> check_service serv_load serv_active serv_sub = None)
 \<and> (serv_load \<noteq> ''loaded'' \<and> serv_active \<noteq> ''inactive''
      \<longrightarrow> check_service serv_load serv_active serv_sub = Some not_loaded_but_not_inactive)
 \<and> (serv_load \<noteq> ''loaded'' \<and> serv_active = ''inactive'' \<and> serv_sub \<noteq> ''dead''
      \<longrightarrow> check_service serv_load serv_active serv_sub = Some not_loaded_but_not_dead)
 \<and> (serv_load \<noteq> ''loaded'' \<and> serv_active = ''inactive'' \<and> serv_sub = ''dead''
      \<longrightarrow> check_service serv_load serv_active serv_sub = None)
 \<and> check_service ''loaded'' ''failed'' serv_sub = Some failed"
  by (simp add: check_service_def)

theorem check_service_decision_table_witness:
  "check_service ''loaded'' ''active'' ''failed'' = Some failed
 \<and> check_service ''loaded'' ''active'' ''dead'' = Some dead
 \<and> check_service ''loaded'' ''active'' ''running'' = None
 \<and> check_service ''not-found'' ''active'' ''running'' = Some not_loaded_but_not_inactive
 \<and> check_service ''not-found'' ''inactive'' ''exited'' = Some not_loaded_but_not_dead
 \<and> check_service ''not-found'' ''inactive'' ''dead'' = None"
  using check_service_decision_table [of "''loaded''" "''active''" "''failed''"]
        check_service_decision_table [of "''loaded''" "''active''" "''dead''"]
        check_service_decision_table [of "''loaded''" "''active''" "''running''"]
        check_service_decision_table [of "''not-found''" "''active''" "''running''"]
        check_service_decision_table [of "''not-found''" "''inactive''" "''exited''"]
        check_service_decision_table [of "''not-found''" "''inactive''" "''dead''"]
  by simp

section \<open>Failure of the listing command\<close>

text \<open>
  C7. The \<open>try\<close> statement around \<open>check_output\<close> turns a failed call into the line
  "UNKNOWN: " followed by the error text and exit code 3, but its \<open>except\<close> clause
  names \<open>CalledProcessError\<close> only. When the listing command cannot be started,
  \<open>check_output\<close> raises \<open>OSError\<close>: the exception leaves \<open>main\<close>, nothing is
  printed and \<open>sys.exit(3)\<close> is not reached, for every critical set and every error
  text. The handled path, a command that exits non-zero, does what the claim says.
\<close>

theorem main_oserror_propagates:
  "main critical_services (Raises_OSError e) = Uncaught (OSError e)
 \<and> main critical_services (Raises_CalledProcessError error) = Exit (''UNKNOWN: '' @ error) 3
 \<and> main [] (Raises_OSError ''[Errno 2] No such file or directory'')
     = Uncaught (OSError ''[Errno 2] No such file or directory'')"
  by (simp add: main_def)

section \<open>The empty listing\<close>

text \<open>
  C10. When the listing command prints nothing, the program prints "OK" and exits
  with code 0, for every critical set.
\<close>

theorem main_empty_listing:
  "main critical_services (Returns '''') = Exit ''OK'' 0"
  by (simp add: main_def main_body_def splitlines_def report_def list_sort_def)

section \<open>The aggregator\<close>

text \<open>
  C2. For a listing of unit records, the loop of \<open>main\<close> leaves in CRITICALS exactly
  the classifications whose unit is in the critical set and whose category is
  \<open>failed\<close>, and in WARNINGS exactly those whose unit is in the critical set with
  another category or whose unit is not in the critical set and whose category is not
  \<open>dead\<close>, both in listing order. A unit that is not critical and classified \<open>dead\<close>
  is in neither bucket, and the run ends the same way with its line taken out of the
  listing, so it is not in the printed message either.
\<close>

theorem aggregator_buckets:
  "((\<forall>line \<in> set lines. well_formed line) \<longrightarrow>
      main_loop critical lines ([], [])
        = Inr (filter (\<lambda>e. bucket_of critical e = CRITICALS) (classified lines),
               filter (\<lambda>e. bucket_of critical e = WARNINGS) (classified lines)))
 \<and> main_body critical (filter (\<lambda>line. \<not> dropped_line critical line) lines)
      = main_body critical lines"
  using main_loop_well_formed [of lines critical "[]" "[]"]
  by (simp add: main_body_def main_loop_dropped)

theorem aggregator_buckets_witness:
  "list_all well_formed
     [''db loaded failed failed'', ''ssh loaded active dead'',
      ''cron loaded active dead'', ''web not-found active running'']
 \<and> main_loop [''db'', ''ssh'']
      [''db loaded failed failed'', ''ssh loaded active dead'',
       ''cron loaded active dead'', ''web not-found active running''] ([], [])
    = Inr ([(failed, ''db'')], [(dead, ''ssh''), (not_loaded_but_not_inactive, ''web'')])
 \<and> main_body [''db'', ''ssh'']
      [''db loaded failed failed'', ''ssh loaded active dead'', ''web not-found active running'']
    = main_body [''db'', ''ssh'']
      [''db loaded failed failed'', ''ssh loaded active dead'',
       ''cron loaded active dead'', ''web not-found active running'']"
proof -
  let ?lines = "[''db loaded failed failed'', ''ssh loaded active dead'',
                 ''cron loaded active dead'', ''web not-found active running'']"
  let ?crit = "[''db'', ''ssh'']"
  have wf: "\<forall>line \<in> set ?lines. well_formed line" by code_simp
  have cs: "filter (\<lambda>e. bucket_of ?crit e = CRITICALS) (classified ?lines) = [(failed, ''db'')]"
    by code_simp
  have ws: "filter (\<lambda>e. bucket_of ?crit e = WARNINGS) (classified ?lines)
              = [(dead, ''ssh''), (not_loaded_but_not_inactive, ''web'')]"
    by code_simp
  have fl: "filter (\<lambda>line. \<not> dropped_line ?crit line) ?lines
              = [''db loaded failed failed'', ''ssh loaded active dead'',
                 ''web not-found active running'']"
    by code_simp
  from aggregator_buckets [of ?lines ?crit] wf
  show ?thesis by (simp only: cs ws fl simp_thms list_all_iff)
qed

section \<open>The order within a bucket\<close>

text \<open>
  C3, as the specification has it, fails: \<open>list.sort()\<close> compares whole tuples, so two
  entries of one category are put in the order of their unit names. Here
  \<open>b.service\<close> is listed before \<open>a.service\<close>, both land in WARNINGS in that order,
  and the message names \<open>a.service\<close> first.
\<close>

theorem same_category_order_counterexample:
  "main_loop []
     (splitlines ''b.service not-found active running\<newline>a.service not-found active running\<newline>'')
     ([], [])
     = Inr ([], [(not_loaded_but_not_inactive, ''b.service''),
                 (not_loaded_but_not_inactive, ''a.service'')])
 \<and> list_sort [(not_loaded_but_not_inactive, ''b.service''),
              (not_loaded_but_not_inactive, ''a.service'')]
     = [(not_loaded_but_not_inactive, ''a.service''),
        (not_loaded_but_not_inactive, ''b.service'')]
 \<and> main []
     (Returns ''b.service not-found active running\<newline>a.service not-found active running\<newline>'')
     = Exit ''WARNING: not loaded but not inactive: a.service b.service '' 1"
  by code_simp

text \<open>
  C3, amended. After aggregation each bucket is a rearrangement of what the loop
  collected, ordered by the category precedence failed, dead, not loaded but not
  inactive, not loaded but not dead; two entries of the same category are in
  ascending order of their unit names (byte-wise comparison), whatever their order
  in the listing.
\<close>

theorem buckets_sorted_by_category_then_name:
  assumes "main_loop critical lines ([], []) = Inr (criticals, warnings)"
  shows "main_body critical lines = report (list_sort criticals) (list_sort warnings)
       \<and> sorted_wrt entry_le (list_sort criticals)
       \<and> sorted_wrt entry_le (list_sort warnings)
       \<and> mset (list_sort criticals) = mset criticals
       \<and> mset (list_sort warnings) = mset warnings"
  using assms by (simp add: main_body_def list_sort_sorted list_sort_mset)

theorem buckets_sorted_by_category_then_name_witness:
  "main_loop [] [''b.service not-found active running'', ''a.service not-found active running'']
     ([], [])
     = Inr ([], [(not_loaded_but_not_inactive, ''b.service''),
                 (not_loaded_but_not_inactive, ''a.service'')])
 \<and> sorted_wrt entry_le
      [(not_loaded_but_not_inactive, ''a.service''),
       (not_loaded_but_not_inactive, ''b.service'')]
 \<and> mset [(not_loaded_but_not_inactive, ''a.service''),
          (not_loaded_but_not_inactive, ''b.service'')]
    = mset [(not_loaded_but_not_inactive, ''b.service''),
            (not_loaded_but_not_inactive, ''a.service'')]"
proof -
  let ?lines = "[''b.service not-found active running'', ''a.service not-found active running'']"
  let ?ws = "[(not_loaded_but_not_inactive, ''b.service''),
              (not_loaded_but_not_inactive, ''a.service'')]"
  have loop: "main_loop [] ?lines ([], []) = Inr ([], ?ws)" by code_simp
  have srt: "list_sort ?ws = [(not_loaded_but_not_inactive, ''a.service''),
                              (not_loaded_but_not_inactive, ''b.service'')]"
    by code_simp
  from buckets_sorted_by_category_then_name [OF loop] loop
  show ?thesis by (simp only: srt simp_thms)
qed

section \<open>Verdict and exit code\<close>

text \<open>
  C4, as the specification has it, fails: it speaks of every input listing, but a
  listing with a malformed line never reaches the verdict. Here the first line puts
  the critical unit \<open>db\<close> in CRITICALS, the blank second line raises \<open>IndexError\<close>,
  and the run prints no "CRITICAL: " line and does not exit with 2.
\<close>

theorem verdict_counterexample:
  "main_loop [''db''] [''db loaded failed failed''] ([], []) = Inr ([(failed, ''db'')], [])
 \<and> main [''db''] (Returns ''db loaded failed failed\<newline>\<newline>'') = Uncaught IndexError"
  by code_simp

text \<open>
  C4, amended. For every critical set and every listing of which each line has at
  least four fields, the loop ends with the buckets CRITICALS and WARNINGS, and: if
  CRITICALS is not empty the program prints "CRITICAL: " and the message of the
  sorted CRITICALS followed by the sorted WARNINGS and exits with 2; else if WARNINGS
  is not empty it prints "WARNING: " and the message of the sorted WARNINGS and exits
  with 1; else it prints "OK" alone and exits with 0. On such a listing, and when the
  listing command exits non-zero, the program prints a line whose status word and
  exit code agree with OK = 0, WARNING = 1, CRITICAL = 2, UNKNOWN = 3.
\<close>

theorem verdict_of_unit_records:
  assumes "\<forall>l \<in> set (splitlines output). well_formed l"
  shows "(\<exists>criticals warnings.
            main_loop critical (splitlines output) ([], []) = Inr (criticals, warnings)
          \<and> main critical (Returns output) =
              (if criticals \<noteq> []
               then Exit (''CRITICAL: '' @ get_message (list_sort criticals @ list_sort warnings)) 2
               else if warnings \<noteq> []
               then Exit (''WARNING: '' @ get_message (list_sort warnings)) 1
               else Exit ''OK'' 0))
       \<and> status_matches_exit_code (main critical (Returns output))
       \<and> status_matches_exit_code (main critical (Raises_CalledProcessError error))"
proof (intro conjI)
  let ?cs = "filter (\<lambda>e. bucket_of critical e = CRITICALS) (classified (splitlines output))"
  let ?ws = "filter (\<lambda>e. bucket_of critical e = WARNINGS) (classified (splitlines output))"
  have loop: "main_loop critical (splitlines output) ([], []) = Inr (?cs, ?ws)"
    using main_loop_well_formed [OF assms, of critical "[]" "[]"] by simp
  have verdict: "main critical (Returns output) =
              (if ?cs \<noteq> []
               then Exit (''CRITICAL: '' @ get_message (list_sort ?cs @ list_sort ?ws)) 2
               else if ?ws \<noteq> []
               then Exit (''WARNING: '' @ get_message (list_sort ?ws)) 1
               else Exit ''OK'' 0)"
    by (simp add: main_def main_body_def loop report_def list_sort_Nil)
  from loop verdict
  show "\<exists>criticals warnings.
            main_loop critical (splitlines output) ([], []) = Inr (criticals, warnings)
          \<and> main critical (Returns output) =
              (if criticals \<noteq> []
               then Exit (''CRITICAL: '' @ get_message (list_sort criticals @ list_sort warnings)) 2
               else if warnings \<noteq> []
               then Exit (''WARNING: '' @ get_message (list_sort warnings)) 1
               else Exit ''OK'' 0)"
    by blast
  show "status_matches_exit_code (main critical (Returns output))"
    unfolding verdict
    by (simp add: status_matches_exit_code_def status_word_def exit_code_of_def)
  show "status_matches_exit_code (main critical (Raises_CalledProcessError error))"
    by (simp add: main_def status_matches_exit_code_def status_word_def exit_code_of_def)
qed

theorem verdict_of_unit_records_witness:
  "list_all well_formed
     (splitlines ''db loaded failed failed\<newline>web not-found active running\<newline>'')
 \<and> main [''db''] (Returns ''db loaded failed failed\<newline>web not-found active running\<newline>'')
     = Exit ''CRITICAL: failed: db not loaded but not inactive: web '' 2
 \<and> status_matches_exit_code
      (Exit ''CRITICAL: failed: db not loaded but not inactive: web '' 2)"
proof -
  let ?out = "''db loaded failed failed\<newline>web not-found active running\<newline>''"
  let ?text = "''CRITICAL: failed: db not loaded but not inactive: web ''"
  have wf: "\<forall>l \<in> set (splitlines ?out). well_formed l" by code_simp
  have loop: "main_loop [''db''] (splitlines ?out) ([], [])
     = Inr ([(failed, ''db'')], [(not_loaded_but_not_inactive, ''web'')])" by code_simp
  have msg: "''CRITICAL: '' @ get_message (list_sort [(failed, ''db'')]
                @ list_sort [(not_loaded_but_not_inactive, ''web'')]) = ?text" by code_simp
  from verdict_of_unit_records [OF wf, of "[''db'']"]
  obtain criticals warnings where
        l: "main_loop [''db''] (splitlines ?out) ([], []) = Inr (criticals, warnings)"
    and v: "main [''db''] (Returns ?out) =
              (if criticals \<noteq> []
               then Exit (''CRITICAL: '' @ get_message (list_sort criticals @ list_sort warnings)) 2
               else if warnings \<noteq> []
               then Exit (''WARNING: '' @ get_message (list_sort warnings)) 1
               else Exit ''OK'' 0)"
    and s: "status_matches_exit_code (main [''db''] (Returns ?out))"
    by blast
  from l loop have cw: "criticals = [(failed, ''db'')]"
      "warnings = [(not_loaded_but_not_inactive, ''web'')]"
    by simp_all
  from v have m: "main [''db''] (Returns ?out) = Exit ?text 2"
    unfolding cw by (simp only: msg list.distinct if_True simp_thms)
  from s have "status_matches_exit_code (Exit ?text 2)" by (simp only: m)
  with wf m show ?thesis by (simp only: list_all_iff simp_thms)
qed

text \<open>
  C5, as the specification has it, fails: the other lines of the listing matter when
  one of them is malformed. Here \<open>db\<close> is in the critical set and classified
  \<open>failed\<close>, but the first line has one field only, the call of \<open>check_service\<close>
  raises \<open>TypeError\<close>, and the run prints no "CRITICAL: " line.
\<close>

theorem critical_failed_counterexample:
  "''db loaded failed failed''
     \<in> set (splitlines ''cron.service\<newline>db loaded failed failed\<newline>'')
 \<and> line_name ''db loaded failed failed'' \<in> set [''db'']
 \<and> line_problem ''db loaded failed failed'' = Some failed
 \<and> main [''db''] (Returns ''cron.service\<newline>db loaded failed failed\<newline>'')
     = Uncaught TypeError"
  by code_simp

text \<open>
  C5, amended. In a listing of which each line has at least four fields, a unit that
  is in the critical set and classified \<open>failed\<close> makes the program print a
  "CRITICAL: " line and exit with 2, whatever categories the other units have.
\<close>

theorem critical_failed_unit_gives_critical:
  assumes wf: "\<forall>l \<in> set (splitlines output). well_formed l"
      and line: "line \<in> set (splitlines output)"
      and crit: "line_name line \<in> set critical"
      and fail: "line_problem line = Some failed"
  shows "\<exists>message. main critical (Returns output) = Exit (''CRITICAL: '' @ message) 2"
proof -
  let ?cs = "filter (\<lambda>e. bucket_of critical e = CRITICALS) (classified (splitlines output))"
  let ?ws = "filter (\<lambda>e. bucket_of critical e = WARNINGS) (classified (splitlines output))"
  have loop: "main_loop critical (splitlines output) ([], []) = Inr (?cs, ?ws)"
    using main_loop_well_formed [OF wf, of critical "[]" "[]"] by simp
  have "(failed, line_name line) \<in> set (classified (splitlines output))"
    using line fail by (rule classified_member)
  moreover have "bucket_of critical (failed, line_name line) = CRITICALS"
    using crit by (simp add: bucket_of_def)
  ultimately have "?cs \<noteq> []" by (auto simp: filter_empty_conv)
  then have "list_sort ?cs \<noteq> []" by (simp add: list_sort_Nil)
  then have "main critical (Returns output)
               = Exit (''CRITICAL: '' @ get_message (list_sort ?cs @ list_sort ?ws)) 2"
    by (simp add: main_def main_body_def loop report_def)
  then show ?thesis by blast
qed

theorem critical_failed_unit_gives_critical_witness:
  "list_all well_formed
     (splitlines ''web not-found active running\<newline>db loaded failed failed\<newline>'')
 \<and> ''db loaded failed failed''
      \<in> set (splitlines ''web not-found active running\<newline>db loaded failed failed\<newline>'')
 \<and> line_name ''db loaded failed failed'' \<in> set [''db'']
 \<and> line_problem ''db loaded failed failed'' = Some failed
 \<and> (\<exists>message. main [''db'']
        (Returns ''web not-found active running\<newline>db loaded failed failed\<newline>'')
        = Exit (''CRITICAL: '' @ message) 2)"
proof -
  let ?out = "''web not-found active running\<newline>db loaded failed failed\<newline>''"
  let ?line = "''db loaded failed failed''"
  have wf: "\<forall>l \<in> set (splitlines ?out). well_formed l" by code_simp
  have line: "?line \<in> set (splitlines ?out)" by code_simp
  have crit: "line_name ?line \<in> set [''db'']" by code_simp
  have fail: "line_problem ?line = Some failed" by code_simp
  from critical_failed_unit_gives_critical [OF wf line crit fail] wf line crit fail
  show ?thesis by (simp only: simp_thms list_all_iff)
qed

section \<open>Malformed lines\<close>

text \<open>
  C6, as the specification has it, fails: nothing checks the number of fields. A
  line with one to three fields makes the call of \<open>check_service\<close> raise
  \<open>TypeError\<close>, a blank line makes \<open>service_split[0]\<close> raise \<open>IndexError\<close>; neither
  is caught, so no \<open>UNKNOWN\<close> line is printed and \<open>sys.exit(3)\<close> is not reached.
\<close>

theorem malformed_line_counterexample:
  "main [] (Returns ''foo.service loaded\<newline>'') = Uncaught TypeError
 \<and> main [] (Returns ''web not-found active running\<newline>   \<newline>'') = Uncaught IndexError"
  by code_simp

text \<open>
  C6, amended. When some line of the listing has fewer than four fields, the first
  such line is neither skipped nor classified: the lines before it are unit records,
  and the run ends at it with an uncaught exception and prints no verdict. The
  exception is \<open>IndexError\<close> when that line is blank (only whitespace, no field) and
  \<open>TypeError\<close> when it has one to three fields.
\<close>

theorem malformed_line_raises:
  assumes "\<exists>l \<in> set (splitlines output). \<not> well_formed l"
  shows "\<exists>before line rest.
           splitlines output = before @ line # rest
         \<and> (\<forall>l \<in> set before. well_formed l)
         \<and> \<not> well_formed line
         \<and> (list_all isspace line \<longleftrightarrow> line_fields line = [])
         \<and> main critical (Returns output)
             = Uncaught (if list_all isspace line then IndexError else TypeError)"
proof -
  from split_list_first_prop [OF assms]
  obtain before line rest where d: "splitlines output = before @ line # rest"
    and nwf: "\<not> well_formed line" and wfb: "\<forall>l \<in> set before. \<not> \<not> well_formed l"
    by blast
  from wfb have wfb': "\<forall>l \<in> set before. well_formed l" by simp
  have "main critical (Returns output)
          = Uncaught (if list_all isspace line then IndexError else TypeError)"
    by (simp add: main_def main_body_def d main_loop_first_malformed [OF wfb' nwf]
                  line_fields_Nil_iff)
  with d wfb' nwf show ?thesis by (auto simp: line_fields_Nil_iff)
qed

theorem malformed_line_raises_witness:
  "(\<exists>l \<in> set (splitlines ''db loaded failed failed\<newline>foo.service loaded\<newline>'').
      \<not> well_formed l)
 \<and> main [''db''] (Returns ''db loaded failed failed\<newline>foo.service loaded\<newline>'')
       = Uncaught TypeError"
proof -
  let ?out = "''db loaded failed failed\<newline>foo.service loaded\<newline>''"
  let ?A = "''db loaded failed failed''"
  let ?B = "''foo.service loaded''"
  have bad: "\<exists>l \<in> set (splitlines ?out). \<not> well_formed l" by code_simp
  have sl: "splitlines ?out = [?A, ?B]" by code_simp
  have wfA: "well_formed ?A" by code_simp
  have nB: "\<not> list_all isspace ?B" by code_simp
  from malformed_line_raises [OF bad, of "[''db'']"]
  obtain before line rest where d: "splitlines ?out = before @ line # rest"
    and wfb: "\<forall>l \<in> set before. well_formed l" and nwf: "\<not> well_formed line"
    and m: "main [''db''] (Returns ?out)
              = Uncaught (if list_all isspace line then IndexError else TypeError)"
    by blast
  from d have "[?A, ?B] = before @ line # rest" by (simp only: sl)
  then have "(before = [] \<and> line = ?A) \<or> (before = [?A] \<and> line = ?B)"
    by (cases before; cases "tl before") auto
  with nwf wfA have "line = ?B" by blast
  with m nB have "main [''db''] (Returns ?out) = Uncaught TypeError" by (simp only: if_False)
  with bad show ?thesis by (simp only: simp_thms)
qed

section \<open>The message\<close>

text \<open>
  C8. \<open>get_message\<close> prints the groups of consecutive entries of one category, each
  group as its label (the name of the category with underscores replaced by spaces),
  a colon and a space, then each unit name of the group followed by a space. The
  listing with the one unit (db, loaded, failed, failed) and the critical set {db}
  gives exactly "CRITICAL: failed: db " and exit code 2.
\<close>

theorem get_message_groups_by_category:
  "get_message problems = render_groups (group_consecutive problems)
 \<and> get_message [(failed, ''unitA''), (failed, ''unitB''), (not_loaded_but_not_dead, ''unitC'')]
     = ''failed: unitA unitB not loaded but not dead: unitC ''
 \<and> main [''db''] (Returns ''db loaded failed failed'') = Exit ''CRITICAL: failed: db '' 2"
proof (intro conjI)
  show "get_message problems = render_groups (group_consecutive problems)"
    by (rule get_message_groups)
  show "get_message [(failed, ''unitA''), (failed, ''unitB''), (not_loaded_but_not_dead, ''unitC'')]
     = ''failed: unitA unitB not loaded but not dead: unitC ''"
    by code_simp
  show "main [''db''] (Returns ''db loaded failed failed'') = Exit ''CRITICAL: failed: db '' 2"
    by code_simp
qed

text \<open>
  C9. Every entry of CRITICALS has the category \<open>failed\<close>. Hence the sorted
  CRITICALS followed by the sorted WARNINGS is non-decreasing in category, and in the
  message printed from it, as in the message printed from the sorted WARNINGS alone,
  no category opens more than one group: each label is printed at most once.
\<close>

theorem criticals_all_failed:
  assumes "main_loop critical lines ([], []) = Inr (criticals, warnings)"
  shows "(\<forall>e \<in> set criticals. fst e = failed)
       \<and> sorted (map (Problem_value \<circ> fst) (list_sort criticals @ list_sort warnings))
       \<and> distinct (map fst (group_consecutive (list_sort criticals @ list_sort warnings)))
       \<and> distinct (map fst (group_consecutive (list_sort warnings)))
       \<and> get_message (list_sort criticals @ list_sort warnings)
           = render_groups (group_consecutive (list_sort criticals @ list_sort warnings))
       \<and> get_message (list_sort warnings)
           = render_groups (group_consecutive (list_sort warnings))"
proof -
  have wf: "\<forall>line \<in> set lines. well_formed line"
    using assms by (rule main_loop_Inr_well_formed)
  from main_loop_well_formed [OF wf, of critical "[]" "[]"] assms
  have cs: "criticals = filter (\<lambda>e. bucket_of critical e = CRITICALS) (classified lines)"
    by simp
  have all_failed: "\<forall>e \<in> set criticals. fst e = failed"
    unfolding cs by (auto simp: bucket_of_def split: if_splits)
  have "sorted (map (Problem_value \<circ> fst) (list_sort criticals @ list_sort warnings))"
    using all_failed
    by (simp add: sorted_append list_sort_categories [unfolded comp_def] list_sort_set comp_def)
  moreover from this
  have "distinct (map fst (group_consecutive (list_sort criticals @ list_sort warnings)))"
    by (rule distinct_group_keys)
  moreover have "distinct (map fst (group_consecutive (list_sort warnings)))"
    by (rule distinct_group_keys [OF list_sort_categories])
  ultimately show ?thesis using all_failed by (simp only: get_message_groups simp_thms)
qed

theorem criticals_all_failed_witness:
  "main_loop [''db'', ''ssh'', ''api'']
     [''db loaded failed failed'', ''ssh loaded active dead'',
      ''web not-found active running'', ''api loaded failed failed''] ([], [])
     = Inr ([(failed, ''db''), (failed, ''api'')],
            [(dead, ''ssh''), (not_loaded_but_not_inactive, ''web'')])
 \<and> list_all (\<lambda>e. fst e = failed) [(failed, ''db''), (failed, ''api'')]
 \<and> distinct (map fst (group_consecutive
      (list_sort [(failed, ''db''), (failed, ''api'')]
       @ list_sort [(dead, ''ssh''), (not_loaded_but_not_inactive, ''web'')])))"
proof -
  let ?lines = "[''db loaded failed failed'', ''ssh loaded active dead'',
                 ''web not-found active running'', ''api loaded failed failed'']"
  have loop: "main_loop [''db'', ''ssh'', ''api''] ?lines ([], [])
     = Inr ([(failed, ''db''), (failed, ''api'')],
            [(dead, ''ssh''), (not_loaded_but_not_inactive, ''web'')])" by code_simp
  from criticals_all_failed [OF loop] loop
  show ?thesis unfolding list_all_iff by blast
qed

end
